theory Spec2Isabelle
  imports Complex_Main "HOL-Library.Multiset"
begin

section \<open>JavaScript numbers\<close>

text \<open>
  A JavaScript \<^verbatim>\<open>number\<close> is a double. The model keeps the three special values apart
  and takes a finite double to be the real number it denotes. The quotient of two finite
  numbers is rounded to the nearest double, as the division of the machine does; it
  decides the number of chunks. Sum, product and remainder are taken exactly, and the value
  \<^verbatim>\<open>-0\<close> is identified with \<^verbatim>\<open>0\<close>. Array indices and loop counters are natural
  numbers.
\<close>

datatype jsnum = NaN | PInf | NInf | Fin real

text \<open>
  Rounding a real to the nearest double, a tie going to the even significand:
  \<open>pow2 e\<close> is \<open>2\<^sup>e\<close>; \<open>expo n x\<close> is the binary exponent of a positive \<open>x\<close>, found in
  at most \<open>n\<close> halvings or doublings (1100 reach beyond the exponents of all doubles);
  the unit in the last place is \<open>2\<^sup>e\<^sup>-\<^sup>5\<^sup>2\<close>, with \<open>e\<close> at least \<open>-1022\<close> for the
  subnormal numbers, and \<open>m\<close> is the number of units, at most \<open>2\<^sup>5\<^sup>3\<close>. The result is an
  infinity when it reaches \<open>2\<^sup>1\<^sup>0\<^sup>2\<^sup>4\<close>: when \<open>e\<close> is 1024 or more, or \<open>e\<close> is 1023 and
  \<open>m\<close> is \<open>2\<^sup>5\<^sup>3\<close>.
\<close>

definition pow2 :: "int \<Rightarrow> real" where
  "pow2 e = (if 0 \<le> e then 2 ^ nat e else 1 / 2 ^ nat (- e))"

fun expo :: "nat \<Rightarrow> real \<Rightarrow> int" where
  "expo 0 x = 0"
| "expo (Suc n) x =
     (if 2 \<le> x then expo n (x / 2) + 1 else if x < 1 then expo n (2 * x) - 1 else 0)"

definition round_even :: "real \<Rightarrow> int" where
  "round_even x =
     (let f = \<lfloor>x\<rfloor>; d = x - of_int f
      in if d < 1 / 2 then f else if 1 / 2 < d then f + 1 else if even f then f else f + 1)"

definition to_double :: "real \<Rightarrow> jsnum" where
  "to_double x =
     (if x = 0 then Fin 0
      else
        (let e = max (expo 1100 \<bar>x\<bar>) (- 1022);
             ulp = pow2 (e - 52);
             m = round_even (\<bar>x\<bar> / ulp)
         in if 1024 \<le> e \<or> (e = 1023 \<and> m = 2 ^ 53) then (if 0 < x then PInf else NInf)
            else Fin (if 0 < x then of_int m * ulp else - (of_int m * ulp))))"

text \<open>The operator \<^verbatim>\<open>/\<close>.\<close>

fun js_div :: "jsnum \<Rightarrow> jsnum \<Rightarrow> jsnum" where
  "js_div NaN _ = NaN"
| "js_div _ NaN = NaN"
| "js_div (Fin a) (Fin b) =
     (if b = 0 then (if a = 0 then NaN else if 0 < a then PInf else NInf)
      else to_double (a / b))"
| "js_div (Fin a) PInf = Fin 0"
| "js_div (Fin a) NInf = Fin 0"
| "js_div PInf (Fin b) = (if 0 \<le> b then PInf else NInf)"
| "js_div NInf (Fin b) = (if 0 \<le> b then NInf else PInf)"
| "js_div PInf PInf = NaN"
| "js_div PInf NInf = NaN"
| "js_div NInf PInf = NaN"
| "js_div NInf NInf = NaN"

text \<open>The operator \<^verbatim>\<open>*\<close>.\<close>

fun js_mul :: "jsnum \<Rightarrow> jsnum \<Rightarrow> jsnum" where
  "js_mul NaN _ = NaN"
| "js_mul _ NaN = NaN"
| "js_mul (Fin a) (Fin b) = Fin (a * b)"
| "js_mul (Fin a) PInf = (if a = 0 then NaN else if 0 < a then PInf else NInf)"
| "js_mul (Fin a) NInf = (if a = 0 then NaN else if 0 < a then NInf else PInf)"
| "js_mul PInf (Fin b) = (if b = 0 then NaN else if 0 < b then PInf else NInf)"
| "js_mul NInf (Fin b) = (if b = 0 then NaN else if 0 < b then NInf else PInf)"
| "js_mul PInf PInf = PInf"
| "js_mul PInf NInf = NInf"
| "js_mul NInf PInf = NInf"
| "js_mul NInf NInf = PInf"

text \<open>The operator \<^verbatim>\<open>+\<close> on numbers.\<close>

fun js_add :: "jsnum \<Rightarrow> jsnum \<Rightarrow> jsnum" where
  "js_add NaN _ = NaN"
| "js_add _ NaN = NaN"
| "js_add (Fin a) (Fin b) = Fin (a + b)"
| "js_add (Fin a) PInf = PInf"
| "js_add (Fin a) NInf = NInf"
| "js_add PInf (Fin b) = PInf"
| "js_add NInf (Fin b) = NInf"
| "js_add PInf PInf = PInf"
| "js_add PInf NInf = NaN"
| "js_add NInf PInf = NaN"
| "js_add NInf NInf = NInf"

text \<open>
  The operator \<^verbatim>\<open>%\<close>: the remainder has the sign of the dividend, the quotient being
  truncated towards zero.
\<close>

definition trunc :: "real \<Rightarrow> int" where
  "trunc x = (if 0 \<le> x then \<lfloor>x\<rfloor> else \<lceil>x\<rceil>)"

fun js_rem :: "jsnum \<Rightarrow> jsnum \<Rightarrow> jsnum" where
  "js_rem NaN _ = NaN"
| "js_rem _ NaN = NaN"
| "js_rem PInf _ = NaN"
| "js_rem NInf _ = NaN"
| "js_rem (Fin a) PInf = Fin a"
| "js_rem (Fin a) NInf = Fin a"
| "js_rem (Fin a) (Fin b) = (if b = 0 then NaN else Fin (a - b * of_int (trunc (a / b))))"

text \<open>\<^verbatim>\<open>Math.floor\<close>, \<^verbatim>\<open>Math.ceil\<close> and \<^verbatim>\<open>Math.round\<close> (which rounds a half upwards).\<close>

fun js_floor :: "jsnum \<Rightarrow> jsnum" where
  "js_floor (Fin a) = Fin (of_int \<lfloor>a\<rfloor>)"
| "js_floor x = x"

fun js_ceil :: "jsnum \<Rightarrow> jsnum" where
  "js_ceil (Fin a) = Fin (of_int \<lceil>a\<rceil>)"
| "js_ceil x = x"

fun js_round :: "jsnum \<Rightarrow> jsnum" where
  "js_round (Fin a) = Fin (of_int \<lfloor>a + 1 / 2\<rfloor>)"
| "js_round x = x"

text \<open>The comparison \<^verbatim>\<open>i < n\<close> of a loop counter with a number.\<close>

fun js_lt :: "nat \<Rightarrow> jsnum \<Rightarrow> bool" where
  "js_lt i (Fin b) = (real i < b)"
| "js_lt i PInf = True"
| "js_lt i NInf = False"
| "js_lt i NaN = False"

section \<open>JavaScript strings\<close>

text \<open>
  A string is the list of the bytes of its UTF-8 encoding. \<^verbatim>\<open>Number.prototype.toString\<close>
  is modelled for the values the program renders: integers (as decimal digits, which is
  what JavaScript prints below \<open>10\<^sup>2\<^sup>1\<close>) and the three special values.
\<close>

fun nat_to_string :: "nat \<Rightarrow> string" where
  "nat_to_string n =
     (if n < 10 then [char_of (48 + n)]
      else nat_to_string (n div 10) @ [char_of (48 + n mod 10)])"

declare nat_to_string.simps [simp del]

definition int_to_string :: "int \<Rightarrow> string" where
  "int_to_string i = (if i < 0 then CHR ''-'' # nat_to_string (nat (- i)) else nat_to_string (nat i))"

fun js_toString :: "jsnum \<Rightarrow> string" where
  "js_toString NaN = ''NaN''"
| "js_toString PInf = ''Infinity''"
| "js_toString NInf = ''-Infinity''"
| "js_toString (Fin a) = int_to_string \<lfloor>a\<rfloor>"

text \<open>\<^verbatim>\<open>String.prototype.padStart\<close> with a one-character filler.\<close>

definition padStart :: "nat \<Rightarrow> char \<Rightarrow> string \<Rightarrow> string" where
  "padStart n c s = replicate (n - length s) c @ s"

text \<open>\<^verbatim>\<open>Array.prototype.join\<close> on an array of strings.\<close>

fun js_join :: "string \<Rightarrow> string list \<Rightarrow> string" where
  "js_join sep [] = []"
| "js_join sep [x] = x"
| "js_join sep (x # y # ys) = x @ sep @ js_join sep (y # ys)"

text \<open>
  \<^verbatim>\<open>String.prototype.trim\<close> removes white space and line terminators from both ends.
  \<open>ws_prefix\<close> is the number of bytes of the white-space character a string starts with
  (0 when it starts with none), \<open>ws_suffix\<close> the same for the character it ends with.
\<close>

definition white_space :: "string list" where
  "white_space =
     [[CHR 0x09], [CHR 0x0A], [CHR 0x0B], [CHR 0x0C], [CHR 0x0D], [CHR 0x20],
      [CHR 0xC2, CHR 0xA0], [CHR 0xE1, CHR 0x9A, CHR 0x80],
      [CHR 0xE2, CHR 0x80, CHR 0x80], [CHR 0xE2, CHR 0x80, CHR 0x81],
      [CHR 0xE2, CHR 0x80, CHR 0x82], [CHR 0xE2, CHR 0x80, CHR 0x83],
      [CHR 0xE2, CHR 0x80, CHR 0x84], [CHR 0xE2, CHR 0x80, CHR 0x85],
      [CHR 0xE2, CHR 0x80, CHR 0x86], [CHR 0xE2, CHR 0x80, CHR 0x87],
      [CHR 0xE2, CHR 0x80, CHR 0x88], [CHR 0xE2, CHR 0x80, CHR 0x89],
      [CHR 0xE2, CHR 0x80, CHR 0x8A], [CHR 0xE2, CHR 0x80, CHR 0xA8],
      [CHR 0xE2, CHR 0x80, CHR 0xA9], [CHR 0xE2, CHR 0x80, CHR 0xAF],
      [CHR 0xE2, CHR 0x81, CHR 0x9F], [CHR 0xE3, CHR 0x80, CHR 0x80],
      [CHR 0xEF, CHR 0xBB, CHR 0xBF]]"

fun ws_prefix :: "string list \<Rightarrow> string \<Rightarrow> nat" where
  "ws_prefix [] s = 0"
| "ws_prefix (w # ws) s = (if take (length w) s = w then length w else ws_prefix ws s)"

definition ws_suffix :: "string \<Rightarrow> nat" where
  "ws_suffix s = ws_prefix (map rev white_space) (rev s)"

function trimStart :: "string \<Rightarrow> string" where
  "trimStart s =
     (if ws_prefix white_space s = 0 then s else trimStart (drop (ws_prefix white_space s) s))"
  by pat_completeness auto
termination
proof (relation "measure length")
  show "wf (measure length)" by simp
next
  fix s :: string
  assume pos: "ws_prefix white_space s \<noteq> 0"
  have "ws_prefix ws s \<le> length s" for ws
  proof (induction ws)
    case Nil
    show ?case by simp
  next
    case (Cons w ws)
    have "length w \<le> length s" if "take (length w) s = w"
      using arg_cong [OF that, of length] by simp
    with Cons show ?case by simp
  qed
  with pos show "(drop (ws_prefix white_space s) s, s) \<in> measure length"
    by (cases s) auto
qed

function trimEnd :: "string \<Rightarrow> string" where
  "trimEnd s =
     (if ws_suffix s = 0 then s else trimEnd (take (length s - ws_suffix s) s))"
  by pat_completeness auto
termination
proof (relation "measure length")
  show "wf (measure length)" by simp
next
  fix s :: string
  assume pos: "ws_suffix s \<noteq> 0"
  have "ws_prefix ws t \<le> length t" for ws t
  proof (induction ws)
    case Nil
    show ?case by simp
  next
    case (Cons w ws)
    have "length w \<le> length t" if "take (length w) t = w"
      using arg_cong [OF that, of length] by simp
    with Cons show ?case by simp
  qed
  then have "ws_suffix s \<le> length s"
    unfolding ws_suffix_def by (metis length_rev)
  with pos show "(take (length s - ws_suffix s) s, s) \<in> measure length"
    by simp
qed

declare trimStart.simps [simp del] trimEnd.simps [simp del]

definition trim :: "string \<Rightarrow> string" where
  "trim s = trimEnd (trimStart s)"

section \<open>Data model (\<^verbatim>\<open>types.ts\<close>)\<close>

text \<open>
  Of a segment of the recognition service's \<^verbatim>\<open>verbose_json\<close> answer the program reads
  \<^verbatim>\<open>start\<close>, \<^verbatim>\<open>end\<close> and \<^verbatim>\<open>text\<close>; \<^verbatim>\<open>id\<close> is kept as the segment's own
  numbering, the remaining fields are never read and are left out. In the same way only
  \<^verbatim>\<open>text\<close> and \<^verbatim>\<open>segments\<close> of the answer are kept.
\<close>

record WhisperSegment =
  seg_id :: int
  seg_start :: jsnum
  seg_end :: jsnum
  seg_text :: string

record WhisperVerboseResponse =
  vr_text :: string
  segments :: "WhisperSegment list"

record SrtEntry =
  e_index :: nat
  startTime :: jsnum
  endTime :: jsnum
  e_text :: string

record TranscriptionResult =
  tr_text :: string
  tr_srt :: "string option"

section \<open>Subtitle conversion (\<^verbatim>\<open>srt.ts\<close>)\<close>

definition formatSrtTime :: "jsnum \<Rightarrow> string" where
  "formatSrtTime seconds =
     (let hours = js_floor (js_div seconds (Fin 3600));
          minutes = js_floor (js_div (js_rem seconds (Fin 3600)) (Fin 60));
          secs = js_floor (js_rem seconds (Fin 60));
          millis = js_round (js_mul (js_rem seconds (Fin 1)) (Fin 1000))
      in padStart 2 CHR ''0'' (js_toString hours) @ '':'' @
         padStart 2 CHR ''0'' (js_toString minutes) @ '':'' @
         padStart 2 CHR ''0'' (js_toString secs) @ '','' @
         padStart 3 CHR ''0'' (js_toString millis))"

definition convertSegmentsToSrtEntries ::
    "WhisperSegment list \<Rightarrow> nat \<Rightarrow> jsnum \<Rightarrow> nat \<Rightarrow> SrtEntry list" where
  "convertSegmentsToSrtEntries segs chunkIndex chunkDuration startIndex =
     (let timeOffset = js_mul (Fin (real chunkIndex)) chunkDuration
      in map (\<lambda>(i, segment).
                \<lparr>e_index = startIndex + i,
                 startTime = js_add (seg_start segment) timeOffset,
                 endTime = js_add (seg_end segment) timeOffset,
                 e_text = trim (seg_text segment)\<rparr>)
             (enumerate 0 segs))"

definition entriesToSrtString :: "SrtEntry list \<Rightarrow> string" where
  "entriesToSrtString entries =
     js_join [CHR 0x0A]
       (map (\<lambda>entry.
               nat_to_string (e_index entry) @ [CHR 0x0A] @
               formatSrtTime (startTime entry) @ '' --> '' @ formatSrtTime (endTime entry) @
               [CHR 0x0A] @ e_text entry @ [CHR 0x0A])
            entries)"

section \<open>The transcription pipeline (\<^verbatim>\<open>transcription.ts\<close>)\<close>

subsection \<open>Options, requests and the outside world\<close>

datatype output_format = TextFormat | SrtFormat

text \<open>
  The options of a run; a field is \<open>None\<close> when the caller leaves it out. The client
  configuration and the progress callback have no part in the result and are left out.
\<close>

record TranscriptionOptions =
  opt_language :: "string option"
  opt_chunkDuration :: "jsnum option"
  opt_outputFormat :: "output_format option"

record ChunkResult =
  cr_index :: nat
  cr_text :: string
  cr_srtEntries :: "SrtEntry list option"

text \<open>The arguments of a call of \<^verbatim>\<open>client.audio.transcriptions.create\<close>.\<close>

record transcription_request =
  rq_model :: string
  rq_file :: string
  rq_response_format :: string
  rq_language :: "string option"
  rq_prompt :: "string option"

text \<open>
  The answer to a request for plain text: a string, or some other value, given by what
  \<^verbatim>\<open>JSON.stringify\<close> makes of it.
\<close>

datatype text_reply = ReplyString string | ReplyObject string

text \<open>One \<^verbatim>\<open>ffmpeg\<close> command of the splitting loop: \<^verbatim>\<open>-ss\<close>, \<^verbatim>\<open>-t\<close> and the output file.\<close>

record split_cmd =
  sc_start :: jsnum
  sc_duration :: jsnum
  sc_output :: string

datatype error = ProbeError | SplitError | TranscriptionError | WorkspaceError

text \<open>
  What the program does not decide itself is a parameter of the model:
  \<^item> \<open>probe_result\<close>: \<open>None\<close> when the \<^verbatim>\<open>ffprobe\<close> command throws, else what
    \<^verbatim>\<open>parseFloat\<close> makes of its output;
  \<^item> \<open>split_ok i\<close>: whether the \<^verbatim>\<open>ffmpeg\<close> command of loop counter \<open>i\<close> succeeds;
  \<^item> \<open>whisper_text\<close> and \<open>whisper_verbose\<close>: the recognition service's answer to the
    request for the chunk of a given index, \<open>None\<close> when reading the chunk or the call throws;
  \<^item> \<open>chat\<close>: the text-generation service's answer to the system and the user prompt sent
    for the chunk of a given index: \<open>None\<close> when the call throws, \<open>Some None\<close> when the
    answer has no content;
  \<^item> \<open>mkdir_base_ok\<close>, \<open>mkdir_temp_ok\<close> and \<open>rm_ok\<close>: whether creating the two
    directories and the \<^verbatim>\<open>rm -rf\<close> command succeed.
\<close>

record env =
  probe_result :: "jsnum option"
  split_ok :: "nat \<Rightarrow> bool"
  whisper_text :: "nat \<Rightarrow> transcription_request \<Rightarrow> text_reply option"
  whisper_verbose :: "nat \<Rightarrow> transcription_request \<Rightarrow> WhisperVerboseResponse option"
  chat :: "nat \<Rightarrow> string \<Rightarrow> string \<Rightarrow> string option option"
  mkdir_base_ok :: bool
  mkdir_temp_ok :: bool
  rm_ok :: bool

subsection \<open>Language handling and the formatting pass\<close>

definition isChinese :: "string \<Rightarrow> bool" where
  "isChinese lang = (lang = ''zh'' \<or> lang = ''chinese'')"

definition languagePrompt_zh :: string where
  "languagePrompt_zh =
      [CHR 0xE4, CHR 0xBB, CHR 0xA5, CHR 0xE4, CHR 0xB8, CHR 0x8B] @
      [CHR 0xE6, CHR 0x98, CHR 0xAF, CHR 0xE6, CHR 0x99, CHR 0xAE] @
      [CHR 0xE9, CHR 0x80, CHR 0x9A, CHR 0xE8, CHR 0xAF, CHR 0x9D] @
      [CHR 0xE7, CHR 0x9A, CHR 0x84, CHR 0xE5, CHR 0x8F, CHR 0xA5] @
      [CHR 0xE5, CHR 0xAD, CHR 0x90, CHR 0xE3, CHR 0x80, CHR 0x82]"

definition systemPrompt_zh :: string where
  "systemPrompt_zh =
      [CHR 0xE4, CHR 0xBD, CHR 0xA0, CHR 0xE6, CHR 0x98, CHR 0xAF] @
      [CHR 0xE4, CHR 0xB8, CHR 0x80, CHR 0xE4, CHR 0xB8, CHR 0xAA] @
      [CHR 0xE8, CHR 0xBD, CHR 0xAC, CHR 0xE5, CHR 0xBD, CHR 0x95] @
      [CHR 0xE6, CHR 0x96, CHR 0x87, CHR 0xE6, CHR 0x9C, CHR 0xAC] @
      [CHR 0xE6, CHR 0xA0, CHR 0xBC, CHR 0xE5, CHR 0xBC, CHR 0x8F] @
      [CHR 0xE5, CHR 0x8C, CHR 0x96, CHR 0xE5, CHR 0x8A, CHR 0xA9] @
      [CHR 0xE6, CHR 0x89, CHR 0x8B, CHR 0xE3, CHR 0x80, CHR 0x82] @
      [CHR 0xE8, CHR 0xAF, CHR 0xB7, CHR 0xE6, CHR 0xA0, CHR 0xBC] @
      [CHR 0xE5, CHR 0xBC, CHR 0x8F, CHR 0xE5, CHR 0x8C, CHR 0x96] @
      [CHR 0xE7, CHR 0xBB, CHR 0x99, CHR 0xE5, CHR 0xAE, CHR 0x9A] @
      [CHR 0xE7, CHR 0x9A, CHR 0x84, CHR 0xE4, CHR 0xB8, CHR 0xAD] @
      [CHR 0xE6, CHR 0x96, CHR 0x87, CHR 0xE8, CHR 0xBD, CHR 0xAC] @
      [CHR 0xE5, CHR 0xBD, CHR 0x95, CHR 0xE6, CHR 0x96, CHR 0x87] @
      [CHR 0xE6, CHR 0x9C, CHR 0xAC, CHR 0xEF, CHR 0xBC, CHR 0x8C] @
      [CHR 0xE4, CHR 0xBD, CHR 0xBF, CHR 0xE5, CHR 0x85, CHR 0xB6] @
      [CHR 0xE6, CHR 0x9B, CHR 0xB4, CHR 0xE6, CHR 0x98, CHR 0x93] @
      [CHR 0xE8, CHR 0xAF, CHR 0xBB, CHR 0xEF, CHR 0xBC, CHR 0x9A] @
      [CHR 0x0A] @
      ''1. '' @
      [CHR 0xE6, CHR 0xB7, CHR 0xBB, CHR 0xE5, CHR 0x8A, CHR 0xA0] @
      [CHR 0xE9, CHR 0x80, CHR 0x82, CHR 0xE5, CHR 0xBD, CHR 0x93] @
      [CHR 0xE7, CHR 0x9A, CHR 0x84, CHR 0xE6, CHR 0xA0, CHR 0x87] @
      [CHR 0xE7, CHR 0x82, CHR 0xB9, CHR 0xE7, CHR 0xAC, CHR 0xA6] @
      [CHR 0xE5, CHR 0x8F, CHR 0xB7, CHR 0x0A] @
      ''2. '' @
      [CHR 0xE4, CHR 0xBF, CHR 0x9D, CHR 0xE6, CHR 0x8C, CHR 0x81] @
      [CHR 0xE5, CHR 0x8E, CHR 0x9F, CHR 0xE5, CHR 0xA7, CHR 0x8B] @
      [CHR 0xE7, CHR 0x94, CHR 0xA8, CHR 0xE8, CHR 0xAF, CHR 0x8D] @
      [CHR 0xE5, CHR 0x92, CHR 0x8C, CHR 0xE7, CHR 0xBB, CHR 0x93] @
      [CHR 0xE6, CHR 0x9E, CHR 0x84, CHR 0x0A] @
      ''3. '' @
      [CHR 0xE4, CHR 0xBF, CHR 0x9D, CHR 0xE7, CHR 0x95, CHR 0x99] @
      [CHR 0xE6, CHR 0x89, CHR 0x80, CHR 0xE6, CHR 0x9C, CHR 0x89] @
      [CHR 0xE5, CHR 0x86, CHR 0x85, CHR 0xE5, CHR 0xAE, CHR 0xB9] @
      [CHR 0xEF, CHR 0xBC, CHR 0x8C, CHR 0xE4, CHR 0xB8, CHR 0x8D] @
      [CHR 0xE8, CHR 0xA6, CHR 0x81, CHR 0xE5, CHR 0x88, CHR 0xA0] @
      [CHR 0xE9, CHR 0x99, CHR 0xA4, CHR 0xE6, CHR 0x88, CHR 0x96] @
      [CHR 0xE6, CHR 0x80, CHR 0xBB, CHR 0xE7, CHR 0xBB, CHR 0x93] @
      [CHR 0xE4, CHR 0xBB, CHR 0xBB, CHR 0xE4, CHR 0xBD, CHR 0x95] @
      [CHR 0xE5, CHR 0x86, CHR 0x85, CHR 0xE5, CHR 0xAE, CHR 0xB9] @
      [CHR 0x0A] @
      ''4. '' @
      [CHR 0xE4, CHR 0xBF, CHR 0x9D, CHR 0xE6, CHR 0x8C, CHR 0x81] @
      [CHR 0xE4, CHR 0xB8, CHR 0xAD, CHR 0xE6, CHR 0x96, CHR 0x87] @
      [CHR 0xEF, CHR 0xBC, CHR 0x8C, CHR 0xE4, CHR 0xB8, CHR 0x8D] @
      [CHR 0xE8, CHR 0xA6, CHR 0x81, CHR 0xE7, CHR 0xBF, CHR 0xBB] @
      [CHR 0xE8, CHR 0xAF, CHR 0x91, CHR 0x0A, CHR 0x0A, CHR 0xE5] @
      [CHR 0x8F, CHR 0xAA, CHR 0xE5, CHR 0x81, CHR 0x9A, CHR 0xE6] @
      [CHR 0x9C, CHR 0x80, CHR 0xE5, CHR 0xB0, CHR 0x8F, CHR 0xE7] @
      [CHR 0x9A, CHR 0x84, CHR 0xE6, CHR 0x94, CHR 0xB9, CHR 0xE5] @
      [CHR 0x8A, CHR 0xA8, CHR 0xE6, CHR 0x9D, CHR 0xA5, CHR 0xE6] @
      [CHR 0x8F, CHR 0x90, CHR 0xE9, CHR 0xAB, CHR 0x98, CHR 0xE5] @
      [CHR 0x8F, CHR 0xAF, CHR 0xE8, CHR 0xAF, CHR 0xBB, CHR 0xE6] @
      [CHR 0x80, CHR 0xA7, CHR 0xEF, CHR 0xBC, CHR 0x8C, CHR 0xE5] @
      [CHR 0x90, CHR 0x8C, CHR 0xE6, CHR 0x97, CHR 0xB6, CHR 0xE4] @
      [CHR 0xBF, CHR 0x9D, CHR 0xE6, CHR 0x8C, CHR 0x81, CHR 0xE5] @
      [CHR 0x8E, CHR 0x9F, CHR 0xE6, CHR 0x84, CHR 0x8F, CHR 0xE5] @
      [CHR 0x92, CHR 0x8C, CHR 0xE7, CHR 0xBB, CHR 0x93, CHR 0xE6] @
      [CHR 0x9E, CHR 0x84, CHR 0xE4, CHR 0xB8, CHR 0x8D, CHR 0xE5] @
      [CHR 0x8F, CHR 0x98, CHR 0xE3, CHR 0x80, CHR 0x82]"

definition systemPrompt_en :: string where
  "systemPrompt_en =
      ''You are a transcript formatter. Format the given English tra'' @
      ''nscript to make it more readable by:'' @
      [CHR 0x0A] @
      ''1. Adding basic punctuation and capitalization'' @
      [CHR 0x0A] @
      ''2. Keeping the original wording and structure'' @
      [CHR 0x0A] @
      ''3. Preserving all content without removing or summarizing an'' @
      ''ything'' @
      [CHR 0x0A] @
      ''4. Keep the original language of the transcript, do not tran'' @
      ''slate'' @
      [CHR 0x0A, CHR 0x0A] @
      ''Make minimal changes to improve readability while keeping th'' @
      ''e original meaning and structure intact.''"

definition systemPrompt_generic :: string where
  "systemPrompt_generic =
      ''You are a transcript formatter. Format the given transcript '' @
      ''to make it more readable by:'' @
      [CHR 0x0A] @
      ''1. Adding basic punctuation and capitalization'' @
      [CHR 0x0A] @
      ''2. Keeping the original wording and structure'' @
      [CHR 0x0A] @
      ''3. Preserving all content without removing or summarizing an'' @
      ''ything'' @
      [CHR 0x0A] @
      ''4. Keep the original language of the transcript, do not tran'' @
      ''slate'' @
      [CHR 0x0A, CHR 0x0A] @
      ''Make minimal changes to improve readability while keeping th'' @
      ''e original meaning and structure intact.''"

definition userPrefix_zh :: string where
  "userPrefix_zh =
      [CHR 0xE8, CHR 0xAF, CHR 0xB7, CHR 0xE6, CHR 0xA0, CHR 0xBC] @
      [CHR 0xE5, CHR 0xBC, CHR 0x8F, CHR 0xE5, CHR 0x8C, CHR 0x96] @
      [CHR 0xE4, CHR 0xBB, CHR 0xA5, CHR 0xE4, CHR 0xB8, CHR 0x8B] @
      [CHR 0xE8, CHR 0xBD, CHR 0xAC, CHR 0xE5, CHR 0xBD, CHR 0x95] @
      [CHR 0xE6, CHR 0x96, CHR 0x87, CHR 0xE6, CHR 0x9C, CHR 0xAC] @
      [CHR 0xEF, CHR 0xBC, CHR 0x9A, CHR 0x0A, CHR 0x0A]"

definition userPrefix_en :: string where
  "userPrefix_en =
      ''Please format this transcript:'' @
      [CHR 0x0A, CHR 0x0A]"

definition formatWithAI :: "(string \<Rightarrow> string \<Rightarrow> string option option) \<Rightarrow> string \<Rightarrow> string \<Rightarrow> string" where
  "formatWithAI client txt language =
     (let systemPrompt =
            (if isChinese language then systemPrompt_zh
             else if language = ''en'' then systemPrompt_en
             else systemPrompt_generic);
          userPrompt =
            (if isChinese language then userPrefix_zh @ txt else userPrefix_en @ txt)
      in case client systemPrompt userPrompt of
           None \<Rightarrow> txt
         | Some None \<Rightarrow> txt
         | Some (Some content) \<Rightarrow> (if content = [] then txt else content))"

definition getLanguagePrompt :: "string \<Rightarrow> string option" where
  "getLanguagePrompt lang = (if isChinese lang then Some languagePrompt_zh else None)"

subsection \<open>One chunk\<close>

text \<open>
  \<open>transcribeChunk\<close> gives the request it sends and its result, \<open>None\<close> when the
  promise is rejected. Its first five arguments are the variables of the enclosing
  function that the closure reads.
\<close>

definition transcribeChunk ::
    "env \<Rightarrow> string \<Rightarrow> string \<Rightarrow> jsnum \<Rightarrow> bool \<Rightarrow> nat \<Rightarrow> transcription_request \<times> ChunkResult option" where
  "transcribeChunk e extension language chunkDuration needSrt index =
     (let isAutoMode = (language = ''auto'');
          chunkFile = ''chunk-'' @ nat_to_string index @ extension;
          langParam = (if isAutoMode then None else Some language);
          promptParam = (if isAutoMode then None else getLanguagePrompt language)
      in if needSrt then
           (let request = \<lparr>rq_model = ''whisper-1'', rq_file = chunkFile,
                           rq_response_format = ''verbose_json'',
                           rq_language = langParam, rq_prompt = promptParam\<rparr>
            in (request,
                case whisper_verbose e index request of
                  None \<Rightarrow> None
                | Some response \<Rightarrow>
                    Some \<lparr>cr_index = index, cr_text = vr_text response,
                          cr_srtEntries =
                            Some (convertSegmentsToSrtEntries (segments response) index chunkDuration 1)\<rparr>))
         else
           (let request = \<lparr>rq_model = ''whisper-1'', rq_file = chunkFile,
                           rq_response_format = ''text'',
                           rq_language = langParam, rq_prompt = promptParam\<rparr>
            in (request,
                case whisper_text e index request of
                  None \<Rightarrow> None
                | Some response \<Rightarrow>
                    (let transcription =
                           (case response of ReplyString str \<Rightarrow> str | ReplyObject json \<Rightarrow> json);
                         formattedText = formatWithAI (chat e index) transcription language
                     in Some \<lparr>cr_index = index, cr_text = formattedText,
                               cr_srtEntries = None\<rparr>))))"

subsection \<open>Splitting\<close>

text \<open>
  The splitting loop, from counter \<open>i\<close> with the commands run so far. It gives the
  commands run and whether all of them succeeded; a failing command throws and ends the
  loop. With an infinite chunk count and no failing command the loop never ends: the
  value is then \<open>None\<close>.
\<close>

partial_function (option) splitLoop ::
    "env \<Rightarrow> string \<Rightarrow> jsnum \<Rightarrow> jsnum \<Rightarrow> nat \<Rightarrow> split_cmd list \<Rightarrow> (split_cmd list \<times> bool) option" where
  "splitLoop e extension totalChunks chunkDuration i cmds =
     (if js_lt i totalChunks then
        (let start = js_mul (Fin (real i)) chunkDuration;
             outputPath = ''chunk-'' @ nat_to_string (i + 1) @ extension;
             cmd = \<lparr>sc_start = start, sc_duration = chunkDuration, sc_output = outputPath\<rparr>
         in if split_ok e i
            then splitLoop e extension totalChunks chunkDuration (i + 1) (cmds @ [cmd])
            else Some (cmds @ [cmd], False))
      else Some (cmds, True))"

subsection \<open>Assembling the results\<close>

text \<open>The inner and the outer loop of the renumbering, on the array built and the counter.\<close>

fun pushEntries :: "SrtEntry list \<Rightarrow> SrtEntry list \<times> nat \<Rightarrow> SrtEntry list \<times> nat" where
  "pushEntries [] st = st"
| "pushEntries (entry # entries) (allSrtEntries, globalIndex) =
     pushEntries entries (allSrtEntries @ [entry\<lparr>e_index := globalIndex\<rparr>], globalIndex + 1)"

fun renumber :: "ChunkResult list \<Rightarrow> SrtEntry list \<times> nat \<Rightarrow> SrtEntry list \<times> nat" where
  "renumber [] st = st"
| "renumber (r # rs) st =
     renumber rs (case cr_srtEntries r of None \<Rightarrow> st | Some entries \<Rightarrow> pushEntries entries st)"

text \<open>
  Step 3 of the pipeline: sort the results by index (\<^verbatim>\<open>Array.prototype.sort\<close> is
  stable, as \<open>sort_key\<close> is), join the texts, renumber and render the entries.
\<close>

definition assemble :: "bool \<Rightarrow> ChunkResult list \<Rightarrow> TranscriptionResult" where
  "assemble needSrt unsorted =
     (let results = sort_key cr_index unsorted
      in \<lparr>tr_text = js_join '' '' (map cr_text results),
          tr_srt = (if needSrt
                    then Some (entriesToSrtString (fst (renumber results ([], 1))))
                    else None)\<rparr>)"

subsection \<open>The pipeline\<close>

text \<open>
  Creating the service client comes first and is taken to succeed. What a run leaves
  behind: the split commands it ran, the requests of the transcription
  tasks it handed to the limiter, and the value it returns or the error it throws.
  \<^verbatim>\<open>Promise.all\<close> gives the results in the order of the tasks whatever the order of
  completion, and rejects when one task does; \<open>those\<close> is that. On a rejected run the
  tasks still waiting at the limiter may never send their request.
\<close>

record run =
  split_cmds :: "split_cmd list"
  requests :: "transcription_request list"
  outcome :: "error + TranscriptionResult"

text \<open>The defaults of the options, and the flag derived from the output format.\<close>

definition languageOf :: "TranscriptionOptions \<Rightarrow> string" where
  "languageOf options = (case opt_language options of None \<Rightarrow> ''auto'' | Some l \<Rightarrow> l)"

definition chunkDurationOf :: "TranscriptionOptions \<Rightarrow> jsnum" where
  "chunkDurationOf options = (case opt_chunkDuration options of None \<Rightarrow> Fin 300 | Some c \<Rightarrow> c)"

definition needSrtOf :: "TranscriptionOptions \<Rightarrow> bool" where
  "needSrtOf options =
     ((case opt_outputFormat options of None \<Rightarrow> TextFormat | Some f \<Rightarrow> f) = SrtFormat)"

definition transcribeFromPath :: "env \<Rightarrow> string \<Rightarrow> TranscriptionOptions \<Rightarrow> run option" where
  "transcribeFromPath e extension options =
     (let language = languageOf options;
          chunkDuration = chunkDurationOf options;
          needSrt = needSrtOf options
      in case probe_result e of
           None \<Rightarrow> Some \<lparr>split_cmds = [], requests = [], outcome = Inl ProbeError\<rparr>
         | Some totalDuration \<Rightarrow>
             (let totalChunks = js_ceil (js_div totalDuration chunkDuration)
              in case splitLoop e extension totalChunks chunkDuration 0 [] of
                   None \<Rightarrow> None
                 | Some (cmds, False) \<Rightarrow>
                     Some \<lparr>split_cmds = cmds, requests = [], outcome = Inl SplitError\<rparr>
                 | Some (cmds, True) \<Rightarrow>
                     (let tasks = map (transcribeChunk e extension language chunkDuration needSrt)
                                      [0..<length cmds]
                      in Some \<lparr>split_cmds = cmds, requests = map fst tasks,
                               outcome = (case those (map snd tasks) of
                                            None \<Rightarrow> Inl TranscriptionError
                                          | Some results \<Rightarrow> Inr (assemble needSrt results))\<rparr>)))"

subsection \<open>The workspace\<close>

text \<open>
  The state of the file system that the wrapper reads and changes: whether the base
  directory and the run's own directory exist.
\<close>

record fs_state =
  base_exists :: bool
  temp_exists :: bool

text \<open>
  The \<^verbatim>\<open>finally\<close> block: an error of the removal is caught and logged. The wrapper
  modelled is \<^verbatim>\<open>transcribeAudioFile\<close>; \<^verbatim>\<open>transcribeAudio\<close> is the same wrapper around
  a copy of the audio written into the workspace.
\<close>

definition cleanup :: "env \<Rightarrow> fs_state \<Rightarrow> fs_state" where
  "cleanup e fs =
     (if temp_exists fs then (if rm_ok e then fs\<lparr>temp_exists := False\<rparr> else fs) else fs)"

definition transcribeAudioFile ::
    "env \<Rightarrow> fs_state \<Rightarrow> string \<Rightarrow> TranscriptionOptions \<Rightarrow> (fs_state \<times> run) option" where
  "transcribeAudioFile e fs extension options =
     (if \<not> base_exists fs \<and> \<not> mkdir_base_ok e then
        Some (cleanup e fs, \<lparr>split_cmds = [], requests = [], outcome = Inl WorkspaceError\<rparr>)
      else
        (let fs1 = fs\<lparr>base_exists := True\<rparr>
         in if \<not> temp_exists fs1 \<and> \<not> mkdir_temp_ok e then
              Some (cleanup e fs1, \<lparr>split_cmds = [], requests = [], outcome = Inl WorkspaceError\<rparr>)
            else
              (let fs2 = fs1\<lparr>temp_exists := True\<rparr>
               in case transcribeFromPath e extension options of
                    None \<Rightarrow> None
                  | Some r \<Rightarrow> Some (cleanup e fs2, r))))"

section \<open>Notions used in the statements\<close>

text \<open>The subtitle entries of a list of results, in the order of the list.\<close>

definition entriesOf :: "ChunkResult list \<Rightarrow> SrtEntry list" where
  "entriesOf results =
     concat (map (\<lambda>r. case cr_srtEntries r of None \<Rightarrow> [] | Some entries \<Rightarrow> entries) results)"

text \<open>The renumbered entries that the assembler renders.\<close>

definition allSrtEntries :: "ChunkResult list \<Rightarrow> SrtEntry list" where
  "allSrtEntries results = fst (renumber (sort_key cr_index results) ([], 1))"

text \<open>The command that the splitting loop runs at counter \<open>i\<close>.\<close>

definition plannedCmd :: "string \<Rightarrow> jsnum \<Rightarrow> nat \<Rightarrow> split_cmd" where
  "plannedCmd extension chunkDuration i =
     \<lparr>sc_start = js_mul (Fin (real i)) chunkDuration, sc_duration = chunkDuration,
      sc_output = ''chunk-'' @ nat_to_string (i + 1) @ extension\<rparr>"

text \<open>The transcription that the text-only flow takes from the service's answer.\<close>

definition replyText :: "text_reply \<Rightarrow> string" where
  "replyText response = (case response of ReplyString str \<Rightarrow> str | ReplyObject json \<Rightarrow> json)"

subsection \<open>Sample inputs\<close>

text \<open>
  An audio file of 650 seconds whose every command and recognition call succeeds, and
  whose formatting call fails for the chunk of index 1.
\<close>

definition env_plain :: env where
  "env_plain =
     \<lparr>probe_result = Some (Fin 650),
      split_ok = (\<lambda>i. True),
      whisper_text = (\<lambda>i request. Some (ReplyString (''part '' @ nat_to_string i))),
      whisper_verbose = (\<lambda>i request.
         Some \<lparr>vr_text = ''part '' @ nat_to_string i,
               segments = [\<lparr>seg_id = 0, seg_start = Fin 10.5, seg_end = Fin 12,
                            seg_text = '' hello ''\<rparr>]\<rparr>),
      chat = (\<lambda>i systemPrompt userPrompt.
         if i = 1 then None else Some (Some (''Part '' @ nat_to_string i @ ''.''))),
      mkdir_base_ok = True, mkdir_temp_ok = True, rm_ok = True\<rparr>"

text \<open>The same, with the recognition call failing for the chunk of index 2.\<close>

definition env_call_fails :: env where
  "env_call_fails =
     env_plain\<lparr>whisper_text := (\<lambda>i request.
        if i = 2 then None else Some (ReplyString (''part '' @ nat_to_string i)))\<rparr>"

definition default_options :: TranscriptionOptions where
  "default_options = \<lparr>opt_language = None, opt_chunkDuration = None, opt_outputFormat = None\<rparr>"

definition fs_fresh :: fs_state where
  "fs_fresh = \<lparr>base_exists = False, temp_exists = False\<rparr>"

text \<open>Two results of a subtitle run, each with one entry carrying the chunk's own number 1.\<close>

definition result_one :: ChunkResult where
  "result_one =
     \<lparr>cr_index = 0, cr_text = ''one'',
      cr_srtEntries = Some [\<lparr>e_index = 1, startTime = Fin 1, endTime = Fin 2, e_text = ''a''\<rparr>]\<rparr>"

definition result_two :: ChunkResult where
  "result_two =
     \<lparr>cr_index = 1, cr_text = ''two'',
      cr_srtEntries = Some [\<lparr>e_index = 1, startTime = Fin 301, endTime = Fin 302, e_text = ''b''\<rparr>]\<rparr>"

section \<open>Evaluation of small terms\<close>

lemma nat_to_string_digits:
  "nat_to_string 0 = ''0''" "nat_to_string (Suc 0) = ''1''" "nat_to_string 1 = ''1''"
  "nat_to_string (Suc (Suc 0)) = ''2''" "nat_to_string 2 = ''2''" "nat_to_string 3 = ''3''"
  by code_simp+

lemma upt_3: "[0..<3] = [0, 1, 2]"
  by (simp add: upt_rec)

lemma sample_facts:
  "probe_result env_plain = Some (Fin 650)"
  "chunkDurationOf default_options = Fin 300"
  "languageOf default_options = ''auto''"
  "needSrtOf default_options = False"
  "split_ok env_plain i"
  by (simp_all add: env_plain_def default_options_def chunkDurationOf_def languageOf_def needSrtOf_def)

lemma sample_count:
  "js_ceil (js_div (Fin 650) (Fin 300)) = Fin 3"
  "js_ceil (js_div (Fin (- 1)) (Fin (- 300))) = Fin 1"
  by code_simp+

lemma sample_call_fails:
  "probe_result env_call_fails = Some (Fin 650)" "split_ok env_call_fails i"
  "whisper_text env_call_fails 2 request = None"
  "mkdir_base_ok env_call_fails" "mkdir_temp_ok env_call_fails" "rm_ok env_call_fails"
  by (simp_all add: env_call_fails_def env_plain_def)

section \<open>Rounding to a double\<close>


lemma pow2_pos: "0 < pow2 e"
  by (simp add: pow2_def)

lemma round_even_lower: "of_int z \<le> x \<Longrightarrow> z \<le> round_even x"
proof -
  assume "of_int z \<le> x"
  then have "z \<le> \<lfloor>x\<rfloor>" by (simp add: le_floor_iff)
  moreover have "\<lfloor>x\<rfloor> \<le> round_even x" by (simp add: round_even_def Let_def)
  ultimately show ?thesis by simp
qed




lemma round_even_nonneg: "0 \<le> x \<Longrightarrow> 0 \<le> round_even x"
  using round_even_lower [of 0 x] by simp

lemma to_double_nonpos:
  assumes "x \<le> 0"
  shows "to_double x = NInf \<or> (\<exists>y. to_double x = Fin y \<and> y \<le> 0)"
proof (cases "x = 0")
  case True
  then show ?thesis by (simp add: to_double_def)
next
  case False
  with assms have neg: "x < 0" by simp
  define e where "e = max (expo 1100 \<bar>x\<bar>) (- 1022)"
  define m where "m = round_even (\<bar>x\<bar> / pow2 (e - 52))"
  define y :: real where "y = of_int m * pow2 (e - 52)"
  have ulp: "0 < pow2 (e - 52)" by (rule pow2_pos)
  then have "0 \<le> \<bar>x\<bar> / pow2 (e - 52)" by simp
  then have "0 \<le> m" unfolding m_def by (rule round_even_nonneg)
  with ulp have "0 \<le> y" unfolding y_def by simp
  have "to_double x = (if 1024 \<le> e \<or> (e = 1023 \<and> m = 2 ^ 53) then NInf else Fin (- y))"
    unfolding to_double_def Let_def e_def [symmetric] m_def [symmetric] y_def [symmetric]
    using neg by simp
  with \<open>0 \<le> y\<close> show ?thesis by auto
qed


lemma to_double_no_chunks: "q \<le> 0 \<Longrightarrow> \<not> js_lt 0 (js_ceil (to_double q))"
  using to_double_nonpos [of q] by (auto simp: ceiling_le_iff)


section \<open>The splitting loop\<close>

lemma splitLoop_none: "\<not> js_lt i tc \<Longrightarrow> splitLoop e ext tc cd i cmds = Some (cmds, True)"
  by (subst splitLoop.simps) simp

lemma splitLoop_all_ok:
  assumes "\<forall>j. i \<le> j \<and> j < n \<longrightarrow> split_ok e j \<and> js_lt j tc" "\<not> js_lt n tc" "i \<le> n"
  shows "splitLoop e ext tc cd i cmds = Some (cmds @ map (plannedCmd ext cd) [i..<n], True)"
  using assms
proof (induction "n - i" arbitrary: i cmds)
  case 0
  then have "i = n" by simp
  with 0 show ?case by (simp add: splitLoop_none)
next
  case (Suc d)
  then have lt: "i < n" by simp
  with Suc.prems have ok: "split_ok e i" "js_lt i tc" by auto
  have "splitLoop e ext tc cd (i + 1) (cmds @ [plannedCmd ext cd i])
        = Some ((cmds @ [plannedCmd ext cd i]) @ map (plannedCmd ext cd) [i + 1..<n], True)"
    using Suc.hyps(2) Suc.prems lt by (intro Suc.hyps(1)) auto
  then show ?case
    using ok lt by (subst splitLoop.simps) (simp add: plannedCmd_def Let_def upt_conv_Cons)
qed

lemma splitLoop_fails:
  assumes "\<forall>j. i \<le> j \<and> j < k \<longrightarrow> split_ok e j" "\<forall>j. i \<le> j \<and> j \<le> k \<longrightarrow> js_lt j tc"
    "\<not> split_ok e k" "i \<le> k"
  shows "splitLoop e ext tc cd i cmds = Some (cmds @ map (plannedCmd ext cd) [i..<Suc k], False)"
  using assms
proof (induction "k - i" arbitrary: i cmds)
  case 0
  then have "i = k" by simp
  with 0 show ?case by (subst splitLoop.simps) (simp add: plannedCmd_def Let_def)
next
  case (Suc d)
  then have lt: "i < k" by simp
  with Suc.prems have ok: "split_ok e i" "js_lt i tc" by auto
  have "splitLoop e ext tc cd (i + 1) (cmds @ [plannedCmd ext cd i])
        = Some ((cmds @ [plannedCmd ext cd i]) @ map (plannedCmd ext cd) [i + 1..<Suc k], False)"
    using Suc.hyps(2) Suc.prems lt by (intro Suc.hyps(1)) auto
  then show ?case
    using ok lt
    by (subst splitLoop.simps) (simp add: plannedCmd_def Let_def upt_conv_Cons del: upt_Suc)
qed

lemma js_lt_ceil: "js_lt j (Fin (of_int \<lceil>x\<rceil>)) = (j < nat \<lceil>x\<rceil>)"
  by (simp add: nat_less_iff) linarith

section \<open>The assembler\<close>

lemma pushEntries_eq:
  "pushEntries es (acc, g) =
     (acc @ map (\<lambda>(i, entry). entry\<lparr>e_index := i\<rparr>) (enumerate g es), g + length es)"
  by (induction es arbitrary: acc g) simp_all

lemma renumber_eq:
  "renumber rs (acc, g) =
     (acc @ map (\<lambda>(i, entry). entry\<lparr>e_index := i\<rparr>) (enumerate g (entriesOf rs)),
      g + length (entriesOf rs))"
proof (induction rs arbitrary: acc g)
  case Nil
  show ?case by (simp add: entriesOf_def)
next
  case (Cons r rs)
  show ?case
  proof (cases "cr_srtEntries r")
    case None
    then show ?thesis using Cons [of acc g] by (simp add: entriesOf_def)
  next
    case (Some es)
    have "entriesOf (r # rs) = es @ entriesOf rs"
      using Some by (simp add: entriesOf_def)
    then show ?thesis
      using Some Cons by (simp add: pushEntries_eq enumerate_append_eq add.assoc)
  qed
qed

lemma allSrtEntries_eq:
  "allSrtEntries results =
     map (\<lambda>(i, entry). entry\<lparr>e_index := i\<rparr>) (enumerate 1 (entriesOf (sort_key cr_index results)))"
  by (simp add: allSrtEntries_def renumber_eq)

lemma assemble_eq:
  "assemble needSrt results =
     \<lparr>tr_text = js_join '' '' (map cr_text (sort_key cr_index results)),
      tr_srt = (if needSrt then Some (entriesToSrtString (allSrtEntries results)) else None)\<rparr>"
  by (simp add: assemble_def Let_def allSrtEntries_def)

lemma map_fst_enumerate': "map (\<lambda>(i, entry). f i) (enumerate g es) = map f [g..<g + length es]"
proof -
  have "map (\<lambda>(i, entry). f i) (enumerate g es) = map f (map fst (enumerate g es))"
    by (simp only: case_prod_unfold map_map comp_def)
  also have "\<dots> = map f [g..<g + length es]"
    by (simp only: map_fst_enumerate)
  finally show ?thesis .
qed

lemma map_snd_enumerate': "map (\<lambda>(i, entry). f entry) (enumerate g es) = map f es"
  by (induction es arbitrary: g) simp_all

lemma map_times_enumerate:
  "map f (map (\<lambda>(i, entry). entry\<lparr>e_index := i\<rparr>) (enumerate g es)) =
     map (\<lambda>entry. f (entry\<lparr>e_index := 0\<rparr>)) es"
  if "\<And>entry i. f (entry\<lparr>e_index := i\<rparr>) = f (entry\<lparr>e_index := 0\<rparr>)"
  using that by (induction es arbitrary: g) simp_all

lemma length_entriesOf:
  "length (entriesOf rs) = sum_list (map (\<lambda>r. case cr_srtEntries r of None \<Rightarrow> 0 | Some entries \<Rightarrow> length entries) rs)"
  by (induction rs) (auto simp: entriesOf_def split: option.splits)

lemma sum_list_perm: "mset xs = mset ys \<Longrightarrow> sum_list (map f xs) = sum_list (map (f :: 'a \<Rightarrow> nat) ys)"
proof -
  assume "mset xs = mset ys"
  then have "sum_mset (image_mset f (mset xs)) = sum_mset (image_mset f (mset ys))" by simp
  then show ?thesis by (simp only: mset_map [symmetric] sum_mset_sum_list)
qed

lemma filter_eq_single: "distinct zs \<Longrightarrow> k \<in> set zs \<Longrightarrow> filter (\<lambda>x. k = x) zs = [k]"
  by (induction zs) (auto simp: filter_empty_conv)

lemma sort_key_perm_distinct:
  assumes "distinct (map f xs)" "mset ys = mset xs"
  shows "sort_key f ys = sort_key f xs"
proof (rule properties_for_sort_key)
  show "mset (sort_key f xs) = mset ys" using assms by simp
  show "sorted (map f (sort_key f xs))" by simp
next
  fix k assume "k \<in> set (sort_key f xs)"
  then have k: "k \<in> set xs" by simp
  have dx: "distinct xs" and inj: "inj_on f (set xs)"
    using assms(1) by (auto simp: distinct_map)
  have sy: "set ys = set xs" using assms(2) by (rule mset_eq_setD)
  have dy: "distinct ys" using assms(2) dx mset_eq_imp_distinct_iff by blast
  have eq: "(f k = f x) = (k = x)" if "x \<in> set xs" for x
    using inj k that by (auto dest: inj_onD)
  have single: "filter (\<lambda>x. f k = f x) zs = [k]" if "set zs = set xs" "distinct zs" for zs
  proof -
    have "filter (\<lambda>x. f k = f x) zs = filter (\<lambda>x. k = x) zs"
      using that(1) eq by (intro filter_cong) auto
    also have "\<dots> = [k]" using that k by (intro filter_eq_single) auto
    finally show ?thesis .
  qed
  have "filter (\<lambda>x. f k = f x) (sort_key f xs) = [k]"
    using dx by (intro single) auto
  moreover have "filter (\<lambda>x. f k = f x) ys = [k]"
    using dy sy by (intro single) auto
  ultimately show "filter (\<lambda>x. f k = f x) (sort_key f xs) = filter (\<lambda>x. f k = f x) ys"
    by simp
qed


section \<open>Running the pipeline on a finite chunk count\<close>

lemma those_map_None: "\<exists>x\<in>set xs. f x = None \<Longrightarrow> those (map f xs) = None"
  by (induction xs) (auto split: option.splits)

lemma those_map_Some: "\<forall>x\<in>set xs. f x = Some (g x) \<Longrightarrow> those (map f xs) = Some (map g xs)"
  by (induction xs) auto

lemma transcribeFromPath_chunks:
  assumes "probe_result e = Some d"
    and "\<forall>j<n. split_ok e j \<and> js_lt j (js_ceil (js_div d (chunkDurationOf options)))"
    and "\<not> js_lt n (js_ceil (js_div d (chunkDurationOf options)))"
  shows "transcribeFromPath e ext options =
     Some \<lparr>split_cmds = map (plannedCmd ext (chunkDurationOf options)) [0..<n],
           requests = map (\<lambda>i. fst (transcribeChunk e ext (languageOf options)
                                  (chunkDurationOf options) (needSrtOf options) i)) [0..<n],
           outcome =
             (case those (map (\<lambda>i. snd (transcribeChunk e ext (languageOf options)
                                  (chunkDurationOf options) (needSrtOf options) i)) [0..<n]) of
                None \<Rightarrow> Inl TranscriptionError
              | Some results \<Rightarrow> Inr (assemble (needSrtOf options) results))\<rparr>"
proof -
  have "splitLoop e ext (js_ceil (js_div d (chunkDurationOf options))) (chunkDurationOf options) 0 []
        = Some ([] @ map (plannedCmd ext (chunkDurationOf options)) [0..<n], True)"
    using assms(2,3) by (intro splitLoop_all_ok) auto
  then show ?thesis
    using assms(1) by (simp add: transcribeFromPath_def Let_def comp_def)
qed

lemma transcribeChunk_request:
  "fst (transcribeChunk e ext language cd needSrt i) =
     \<lparr>rq_model = ''whisper-1'', rq_file = ''chunk-'' @ nat_to_string i @ ext,
      rq_response_format = (if needSrt then ''verbose_json'' else ''text''),
      rq_language = (if language = ''auto'' then None else Some language),
      rq_prompt = (if language = ''auto'' then None else getLanguagePrompt language)\<rparr>"
  by (simp add: transcribeChunk_def Let_def)

lemma transcribeChunk_text:
  "snd (transcribeChunk e ext language cd False i) =
     (case whisper_text e i (fst (transcribeChunk e ext language cd False i)) of
        None \<Rightarrow> None
      | Some response \<Rightarrow>
          Some \<lparr>cr_index = i, cr_text = formatWithAI (chat e i) (replyText response) language,
                cr_srtEntries = None\<rparr>)"
  by (simp add: transcribeChunk_def Let_def replyText_def split: option.split)

lemma transcribeChunk_srt:
  "snd (transcribeChunk e ext language cd True i) =
     (case whisper_verbose e i (fst (transcribeChunk e ext language cd True i)) of
        None \<Rightarrow> None
      | Some response \<Rightarrow>
          Some \<lparr>cr_index = i, cr_text = vr_text response,
                cr_srtEntries = Some (convertSegmentsToSrtEntries (segments response) i cd 1)\<rparr>)"
  by (simp add: transcribeChunk_def Let_def)

lemma transcribeFromPath_plan:
  assumes "probe_result e = Some (Fin t)" and "chunkDurationOf options = Fin c"
    and "js_ceil (js_div (Fin t) (Fin c)) = Fin (real N)"
    and "\<forall>i<N. split_ok e i"
  shows "transcribeFromPath e ext options =
     Some \<lparr>split_cmds = map (plannedCmd ext (Fin c)) [0..<N],
           requests = map (\<lambda>i. fst (transcribeChunk e ext (languageOf options)
                                  (Fin c) (needSrtOf options) i)) [0..<N],
           outcome =
             (case those (map (\<lambda>i. snd (transcribeChunk e ext (languageOf options)
                                  (Fin c) (needSrtOf options) i)) [0..<N]) of
                None \<Rightarrow> Inl TranscriptionError
              | Some results \<Rightarrow> Inr (assemble (needSrtOf options) results))\<rparr>"
proof -
  have tc: "js_ceil (js_div (Fin t) (chunkDurationOf options)) = Fin (real N)"
    by (simp only: assms(2,3))
  have a: "\<forall>j<N. split_ok e j \<and> js_lt j (js_ceil (js_div (Fin t) (chunkDurationOf options)))"
    unfolding tc using assms(4) by simp
  have b: "\<not> js_lt N (js_ceil (js_div (Fin t) (chunkDurationOf options)))"
    unfolding tc by simp
  from transcribeFromPath_chunks [OF assms(1) a b, of ext] show ?thesis
    by (simp only: assms(2))
qed

lemma formatWithAI_fails: "(\<And>s u. client s u = None) \<Longrightarrow> formatWithAI client txt language = txt"
  by (simp add: formatWithAI_def Let_def)

lemma sort_key_indexed:
  "sort_key cr_index (map (\<lambda>i. \<lparr>cr_index = i, cr_text = f i, cr_srtEntries = g i\<rparr>) [0..<n]) =
     map (\<lambda>i. \<lparr>cr_index = i, cr_text = f i, cr_srtEntries = g i\<rparr>) [0..<n]"
  by (rule sort_key_id_if_sorted) (simp add: comp_def)

section \<open>Properties of the assembler\<close>

text \<open>
  Claim C1. The assembler does not depend on the order in which the results arrive:
  two lists holding the same results, with pairwise distinct indices, are assembled
  into the same text and the same subtitle string. The text is the texts of the results
  joined with one space, taken in ascending order of the index.
\<close>

theorem assemble_order_independent:
  assumes "distinct (map cr_index results)" and "mset shuffled = mset results"
  shows "assemble needSrt shuffled = assemble needSrt results \<and>
         (\<exists>ordered. mset ordered = mset results \<and> sorted_wrt (<) (map cr_index ordered) \<and>
            tr_text (assemble needSrt results) = js_join '' '' (map cr_text ordered))"
proof -
  have same: "sort_key cr_index shuffled = sort_key cr_index results"
    using assms by (rule sort_key_perm_distinct)
  have first: "assemble needSrt shuffled = assemble needSrt results"
    by (simp add: assemble_def Let_def same)
  let ?ordered = "sort_key cr_index results"
  have "distinct (map cr_index ?ordered)"
    using assms(1) by (metis distinct_map distinct_sort set_sort)
  then have "sorted_wrt (<) (map cr_index ?ordered)"
    by (simp add: strict_sorted_iff)
  moreover have "mset ?ordered = mset results" by simp
  moreover have "tr_text (assemble needSrt results) = js_join '' '' (map cr_text ?ordered)"
    by (simp add: assemble_eq)
  ultimately show ?thesis using first by blast
qed

theorem assemble_order_independent_witness:
  "assemble True [result_two, result_one] = assemble True [result_one, result_two] \<and>
   tr_text (assemble True [result_two, result_one]) = ''one two''"
proof -
  have d: "distinct (map cr_index [result_one, result_two])"
    by (simp add: result_one_def result_two_def)
  have m: "mset [result_two, result_one] = mset [result_one, result_two]" by simp
  have t: "tr_text (assemble True [result_two, result_one]) = ''one two''"
    by code_simp
  from assemble_order_independent [OF d m, of True] t show ?thesis by blast
qed

text \<open>
  Claim C4. The sequence numbers of the subtitle entries that the assembler renders are
  \<open>1, 2, \<dots>, M\<close> in this order, \<open>M\<close> being the number of entries of all the results
  together, one for each segment of each chunk. This holds for any order of the results
  and any numbers the entries carried before: the numbers come from the one counter of
  the renumbering loop, run over the sorted results.
\<close>

theorem sequence_numbers:
  "map e_index (allSrtEntries results) =
     [1..<1 + sum_list (map (\<lambda>r. case cr_srtEntries r of None \<Rightarrow> 0 | Some entries \<Rightarrow> length entries) results)] \<and>
   tr_srt (assemble True results) = Some (entriesToSrtString (allSrtEntries results)) \<and>
   length (convertSegmentsToSrtEntries segs chunkIndex chunkDuration startIndex) = length segs"
proof -
  have "map e_index (allSrtEntries results) =
        map (\<lambda>(i, entry). i) (enumerate 1 (entriesOf (sort_key cr_index results)))"
    unfolding allSrtEntries_eq by (simp add: case_prod_unfold comp_def)
  also have "\<dots> = [1..<1 + length (entriesOf (sort_key cr_index results))]"
    by (simp only: map_fst_enumerate' [of "\<lambda>i. i"] list.map_ident)
  also have "length (entriesOf (sort_key cr_index results)) =
       sum_list (map (\<lambda>r. case cr_srtEntries r of None \<Rightarrow> 0 | Some entries \<Rightarrow> length entries) results)"
    unfolding length_entriesOf by (rule sum_list_perm) simp
  finally have numbers: "map e_index (allSrtEntries results) =
     [1..<1 + sum_list (map (\<lambda>r. case cr_srtEntries r of None \<Rightarrow> 0 | Some entries \<Rightarrow> length entries) results)]" .
  have rendered: "tr_srt (assemble True results) = Some (entriesToSrtString (allSrtEntries results))"
    by (simp add: assemble_eq)
  have count: "length (convertSegmentsToSrtEntries segs chunkIndex chunkDuration startIndex) = length segs"
    by (simp add: convertSegmentsToSrtEntries_def Let_def)
  from numbers rendered count show ?thesis by blast
qed

text \<open>
  Claim C5. The times of the subtitle entries of a chunk are the chunk-local times of its
  segments plus the offset \<open>chunkIndex * chunkDuration\<close>, which for finite numbers is
  the sum of the reals; the renumbering keeps the times. A segment starting at 10.5 in
  the chunk of index 2, with chunks of 300 seconds, starts at 610.5.
\<close>

theorem time_shift:
  "map startTime (convertSegmentsToSrtEntries segs chunkIndex chunkDuration startIndex) =
     map (\<lambda>segment. js_add (seg_start segment) (js_mul (Fin (real chunkIndex)) chunkDuration)) segs \<and>
   map endTime (convertSegmentsToSrtEntries segs chunkIndex chunkDuration startIndex) =
     map (\<lambda>segment. js_add (seg_end segment) (js_mul (Fin (real chunkIndex)) chunkDuration)) segs \<and>
   js_add (Fin local) (js_mul (Fin (real chunkIndex)) (Fin c)) = Fin (local + real chunkIndex * c) \<and>
   map startTime (allSrtEntries results) = map startTime (entriesOf (sort_key cr_index results)) \<and>
   map endTime (allSrtEntries results) = map endTime (entriesOf (sort_key cr_index results)) \<and>
   map startTime (convertSegmentsToSrtEntries
       [\<lparr>seg_id = 0, seg_start = Fin 10.5, seg_end = Fin 12, seg_text = ''hello''\<rparr>] 2 (Fin 300) 1) =
     [Fin 610.5]"
proof -
  have conv: "map f (convertSegmentsToSrtEntries segs chunkIndex chunkDuration startIndex) =
      map (\<lambda>(i, segment). f \<lparr>e_index = startIndex + i,
                 startTime = js_add (seg_start segment) (js_mul (Fin (real chunkIndex)) chunkDuration),
                 endTime = js_add (seg_end segment) (js_mul (Fin (real chunkIndex)) chunkDuration),
                 e_text = trim (seg_text segment)\<rparr>) (enumerate 0 segs)" for f :: "SrtEntry \<Rightarrow> jsnum"
    by (simp add: convertSegmentsToSrtEntries_def Let_def case_prod_unfold comp_def)
  have 1: "map startTime (convertSegmentsToSrtEntries segs chunkIndex chunkDuration startIndex) =
     map (\<lambda>segment. js_add (seg_start segment) (js_mul (Fin (real chunkIndex)) chunkDuration)) segs"
    unfolding conv by (simp add: map_snd_enumerate')
  have 2: "map endTime (convertSegmentsToSrtEntries segs chunkIndex chunkDuration startIndex) =
     map (\<lambda>segment. js_add (seg_end segment) (js_mul (Fin (real chunkIndex)) chunkDuration)) segs"
    unfolding conv by (simp add: map_snd_enumerate')
  have 3: "js_add (Fin local) (js_mul (Fin (real chunkIndex)) (Fin c)) = Fin (local + real chunkIndex * c)"
    by simp
  have 4: "map startTime (allSrtEntries results) = map startTime (entriesOf (sort_key cr_index results))"
    unfolding allSrtEntries_eq by (subst map_times_enumerate) simp_all
  have 5: "map endTime (allSrtEntries results) = map endTime (entriesOf (sort_key cr_index results))"
    unfolding allSrtEntries_eq by (subst map_times_enumerate) simp_all
  have 6: "map startTime (convertSegmentsToSrtEntries
       [\<lparr>seg_id = 0, seg_start = Fin 10.5, seg_end = Fin 12, seg_text = ''hello''\<rparr>] 2 (Fin 300) 1) =
     [Fin 610.5]"
    by (simp add: convertSegmentsToSrtEntries_def)
  from 1 2 3 4 5 6 show ?thesis by blast
qed

section \<open>The time format\<close>

lemma formatSrtTime_examples:
  "formatSrtTime (Fin 125.3) = ''00:02:05,300''"
  "formatSrtTime (Fin 3661.999) = ''01:01:01,999''"
  by code_simp+

text \<open>
  For a time that is not negative whose fraction is 0.9995 or more, the milliseconds
  round to 1000 and are written with four digits.
\<close>

lemma nat_to_string_1000: "nat_to_string 1000 = ''1000''"
  by code_simp

lemma formatSrtTime_carry_missing:
  assumes "0 \<le> s" and "0.9995 \<le> s - of_int \<lfloor>s\<rfloor>"
  shows "\<exists>front. formatSrtTime (Fin s) = front @ '',1000''"
proof -
  have "s - of_int \<lfloor>s\<rfloor> < 1" by linarith
  then have "(s - of_int \<lfloor>s\<rfloor>) * 1000 + 1 / 2 < 1001" by simp
  moreover have "1000 \<le> (s - of_int \<lfloor>s\<rfloor>) * 1000 + 1 / 2" using assms(2) by simp
  ultimately have "\<lfloor>(s - of_int \<lfloor>s\<rfloor>) * 1000 + 1 / 2\<rfloor> = 1000"
    by (simp add: floor_eq_iff)
  moreover have "trunc s = \<lfloor>s\<rfloor>" using assms(1) by (simp add: trunc_def)
  ultimately have "js_toString (js_round (js_mul (js_rem (Fin s) (Fin 1)) (Fin 1000))) = ''1000''"
    by (simp add: int_to_string_def nat_to_string_1000)
  then have "formatSrtTime (Fin s) =
      (padStart 2 CHR ''0'' (js_toString (js_floor (js_div (Fin s) (Fin 3600)))) @ '':'' @
       padStart 2 CHR ''0''
         (js_toString (js_floor (js_div (js_rem (Fin s) (Fin 3600)) (Fin 60)))) @ '':'' @
       padStart 2 CHR ''0'' (js_toString (js_floor (js_rem (Fin s) (Fin 60))))) @ '',1000''"
    by (simp only: formatSrtTime_def Let_def padStart_def) simp
  then show ?thesis by blast
qed

text \<open>
  Claim C6. The formatter floors hours, minutes and seconds and rounds the milliseconds,
  but it does not carry a millisecond value that rounds to 1000 into the seconds: at
  1.9996 seconds the millisecond field has four digits.
\<close>

theorem formatSrtTime_millis_overflow:
  "formatSrtTime (Fin 1.9996) = ''00:00:01,1000''"
  by code_simp

section \<open>The chunk plan\<close>




section \<open>Failure of a chunk and the workspace\<close>

lemma cleanup_removes: "rm_ok e \<Longrightarrow> \<not> temp_exists (cleanup e fs)"
  by (simp add: cleanup_def)

lemma transcribeAudioFile_cleanup:
  "transcribeAudioFile e fs ext options = Some (fs', r) \<Longrightarrow> rm_ok e \<Longrightarrow> \<not> temp_exists fs'"
  by (auto simp: transcribeAudioFile_def Let_def cleanup_removes split: if_splits option.splits)

lemma transcribeAudioFile_created:
  assumes "base_exists fs \<or> mkdir_base_ok e" and "temp_exists fs \<or> mkdir_temp_ok e"
  shows "transcribeAudioFile e fs ext options =
     map_option (\<lambda>r. (fs\<lparr>base_exists := True, temp_exists := \<not> rm_ok e\<rparr>, r))
       (transcribeFromPath e ext options)"
  using assms by (auto simp: transcribeAudioFile_def Let_def cleanup_def split: option.splits)

lemma failed_call_run:
  assumes "probe_result e = Some (Fin t)" and "chunkDurationOf options = Fin c"
    and "js_ceil (js_div (Fin t) (Fin c)) = Fin (real N)" and "\<forall>i<N. split_ok e i" and "k < N"
    and "if needSrtOf options
         then whisper_verbose e k (fst (transcribeChunk e ext (languageOf options) (Fin c) True k)) = None
         else whisper_text e k (fst (transcribeChunk e ext (languageOf options) (Fin c) False k)) = None"
  shows "map_option outcome (transcribeFromPath e ext options) = Some (Inl TranscriptionError)"
proof -
  have "snd (transcribeChunk e ext (languageOf options) (Fin c) (needSrtOf options) k) = None"
    using assms(6) by (cases "needSrtOf options") (simp_all add: transcribeChunk_text transcribeChunk_srt)
  with assms(5) have "\<exists>i\<in>set [0..<N].
      snd (transcribeChunk e ext (languageOf options) (Fin c) (needSrtOf options) i) = None"
    by auto
  then have "those (map (\<lambda>i. snd (transcribeChunk e ext (languageOf options) (Fin c)
      (needSrtOf options) i)) [0..<N]) = None"
    by (rule those_map_None)
  then show ?thesis
    using transcribeFromPath_plan [OF assms(1,2,3,4), of ext] by simp
qed

text \<open>
  Claim C3, as the code has it. When the recognition call of some chunk fails, the run
  returns, with the error of a failed transcription and no transcript. The \<^verbatim>\<open>finally\<close>
  block tries to remove the workspace on every path on which the wrapper returns or
  throws, and after a removal that succeeds the workspace does not exist. An error of the
  removal itself is caught and logged: the workspace then stays.
\<close>

theorem failed_call_fails_run:
  assumes "probe_result e = Some (Fin t)" and "chunkDurationOf options = Fin c"
    and "js_ceil (js_div (Fin t) (Fin c)) = Fin (real N)" and "\<forall>i<N. split_ok e i"
    and "base_exists fs \<or> mkdir_base_ok e" and "temp_exists fs \<or> mkdir_temp_ok e"
    and "k < N"
    and "if needSrtOf options
         then whisper_verbose e k (fst (transcribeChunk e ext (languageOf options) (Fin c) True k)) = None
         else whisper_text e k (fst (transcribeChunk e ext (languageOf options) (Fin c) False k)) = None"
  shows "map_option (outcome \<circ> snd) (transcribeAudioFile e fs ext options) = Some (Inl TranscriptionError) \<and>
         map_option (temp_exists \<circ> fst) (transcribeAudioFile e fs ext options) = Some (\<not> rm_ok e) \<and>
         (\<forall>e' fs0 ext' options' fs1 r1.
            transcribeAudioFile e' fs0 ext' options' = Some (fs1, r1) \<and> rm_ok e' \<longrightarrow> \<not> temp_exists fs1)"
proof -
  have run: "map_option outcome (transcribeFromPath e ext options) = Some (Inl TranscriptionError)"
    using assms(1,2,3,4,7,8) by (rule failed_call_run)
  have wrap: "transcribeAudioFile e fs ext options =
     map_option (\<lambda>r. (fs\<lparr>base_exists := True, temp_exists := \<not> rm_ok e\<rparr>, r))
       (transcribeFromPath e ext options)"
    using assms(5,6) by (rule transcribeAudioFile_created)
  from run obtain r where r: "transcribeFromPath e ext options = Some r" "outcome r = Inl TranscriptionError"
    by (cases "transcribeFromPath e ext options") auto
  have 1: "map_option (outcome \<circ> snd) (transcribeAudioFile e fs ext options) = Some (Inl TranscriptionError)"
    by (simp add: wrap r)
  have 2: "map_option (temp_exists \<circ> fst) (transcribeAudioFile e fs ext options) = Some (\<not> rm_ok e)"
    by (simp add: wrap r)
  have 3: "\<forall>e' fs0 ext' options' fs1 r1.
            transcribeAudioFile e' fs0 ext' options' = Some (fs1, r1) \<and> rm_ok e' \<longrightarrow> \<not> temp_exists fs1"
    using transcribeAudioFile_cleanup by blast
  from 1 2 3 show ?thesis by blast
qed

theorem failed_call_fails_run_witness:
  "map_option (outcome \<circ> snd) (transcribeAudioFile env_call_fails fs_fresh ''.mp3'' default_options) =
     Some (Inl TranscriptionError) \<and>
   map_option (temp_exists \<circ> fst) (transcribeAudioFile env_call_fails fs_fresh ''.mp3'' default_options) =
     Some False"
proof -
  have h1: "probe_result env_call_fails = Some (Fin 650)" by (rule sample_call_fails)
  have h2: "chunkDurationOf default_options = Fin 300" by (rule sample_facts)
  have h4: "js_ceil (js_div (Fin 650) (Fin 300)) = Fin (real 3)" using sample_count(1) by simp
  have h5: "\<forall>i<3. split_ok env_call_fails i" by (simp add: sample_call_fails)
  have h6: "base_exists fs_fresh \<or> mkdir_base_ok env_call_fails" by (simp add: sample_call_fails)
  have h7: "temp_exists fs_fresh \<or> mkdir_temp_ok env_call_fails" by (simp add: sample_call_fails)
  have h8: "(2 :: nat) < 3" by simp
  have h9: "if needSrtOf default_options
         then whisper_verbose env_call_fails 2 (fst (transcribeChunk env_call_fails ''.mp3''
                  (languageOf default_options) (Fin 300) True 2)) = None
         else whisper_text env_call_fails 2 (fst (transcribeChunk env_call_fails ''.mp3''
                  (languageOf default_options) (Fin 300) False 2)) = None"
    by (simp add: sample_facts sample_call_fails)
  from failed_call_fails_run [OF h1 h2 h4 h5 h6 h7 h8 h9] show ?thesis
    by (simp add: sample_call_fails)
qed

text \<open>
  The claim as written fails where the removal command fails: the run below ends with
  the error of the failed call, and its workspace still exists.
\<close>

theorem cleanup_failure_counterexample:
  "map_option (outcome \<circ> snd)
     (transcribeAudioFile (env_call_fails\<lparr>rm_ok := False\<rparr>) fs_fresh ''.mp3'' default_options) =
   Some (Inl TranscriptionError) \<and>
   map_option (temp_exists \<circ> fst)
     (transcribeAudioFile (env_call_fails\<lparr>rm_ok := False\<rparr>) fs_fresh ''.mp3'' default_options) =
   Some True"
proof -
  let ?e = "env_call_fails\<lparr>rm_ok := False\<rparr>"
  have "map_option outcome (transcribeFromPath ?e ''.mp3'' default_options) = Some (Inl TranscriptionError)"
    by (rule failed_call_run [where t = 650 and c = 300 and N = 3 and k = 2])
       (use sample_count(1) in \<open>simp_all add: sample_facts sample_call_fails\<close>)
  then obtain r where "transcribeFromPath ?e ''.mp3'' default_options = Some r"
      and "outcome r = Inl TranscriptionError"
    by (cases "transcribeFromPath ?e ''.mp3'' default_options") auto
  moreover have "transcribeAudioFile ?e fs_fresh ''.mp3'' default_options =
     map_option (\<lambda>r. (fs_fresh\<lparr>base_exists := True, temp_exists := \<not> rm_ok ?e\<rparr>, r))
       (transcribeFromPath ?e ''.mp3'' default_options)"
    by (rule transcribeAudioFile_created) (simp_all add: sample_call_fails)
  ultimately show ?thesis by simp
qed

section \<open>The formatting pass\<close>

text \<open>
  Claim C7. In a text-only run whose recognition calls all succeed, a formatting call
  that throws does not fail the run: the run returns a transcript, in which the chunk
  whose formatting failed stands with its raw transcription and every other chunk with
  what its own formatting call made of it, joined in the order of the chunks.
\<close>

theorem formatting_failure_swallowed:
  assumes "probe_result e = Some (Fin t)" and "chunkDurationOf options = Fin c"
    and "js_ceil (js_div (Fin t) (Fin c)) = Fin (real N)"
    and "\<not> needSrtOf options"
    and "\<forall>i<N. split_ok e i"
    and "\<forall>i<N. whisper_text e i (fst (transcribeChunk e ext (languageOf options) (Fin c) False i)) =
                 Some (reply i)"
    and "k < N" and "\<forall>systemPrompt userPrompt. chat e k systemPrompt userPrompt = None"
  shows "\<exists>r. transcribeFromPath e ext options = Some r \<and>
           outcome r =
             Inr \<lparr>tr_text = js_join '' ''
                     (map (\<lambda>i. if i = k then replyText (reply k)
                                else formatWithAI (chat e i) (replyText (reply i)) (languageOf options))
                          [0..<N]),
                  tr_srt = None\<rparr>"
proof -
  let ?lang = "languageOf options"
  let ?g = "\<lambda>i. \<lparr>cr_index = i, cr_text = formatWithAI (chat e i) (replyText (reply i)) ?lang,
                  cr_srtEntries = None\<rparr>"
  have srt: "needSrtOf options = False" using assms(4) by simp
  have "\<forall>i\<in>set [0..<N]. snd (transcribeChunk e ext ?lang (Fin c) False i) = Some (?g i)"
    using assms(6) by (simp add: transcribeChunk_text)
  then have th: "those (map (\<lambda>i. snd (transcribeChunk e ext ?lang (Fin c) False i)) [0..<N]) =
      Some (map ?g [0..<N])"
    by (rule those_map_Some)
  have run: "transcribeFromPath e ext options =
     Some \<lparr>split_cmds = map (plannedCmd ext (Fin c)) [0..<N],
           requests = map (\<lambda>i. fst (transcribeChunk e ext ?lang (Fin c) False i)) [0..<N],
           outcome = Inr (assemble False (map ?g [0..<N]))\<rparr>"
    using transcribeFromPath_plan [OF assms(1,2,3,5), of ext] th
    by (simp add: srt)
  have fallback: "formatWithAI (chat e k) raw ?lang = raw" for raw
    using assms(8) by (intro formatWithAI_fails) simp
  have "map cr_text (map ?g [0..<N]) =
        map (\<lambda>i. if i = k then replyText (reply k)
                   else formatWithAI (chat e i) (replyText (reply i)) ?lang) [0..<N]"
    using fallback by (simp add: comp_def)
  then have "assemble False (map ?g [0..<N]) =
     \<lparr>tr_text = js_join '' ''
                 (map (\<lambda>i. if i = k then replyText (reply k)
                            else formatWithAI (chat e i) (replyText (reply i)) ?lang) [0..<N]),
      tr_srt = None\<rparr>"
    by (simp only: assemble_eq sort_key_indexed if_False)
  with run show ?thesis by simp
qed

theorem formatting_failure_swallowed_witness:
  "map_option outcome (transcribeFromPath env_plain ''.mp3'' default_options) =
     Some (Inr \<lparr>tr_text = ''Part 0. part 1 Part 2.'', tr_srt = None\<rparr>)"
proof -
  have h1: "probe_result env_plain = Some (Fin 650)" by (rule sample_facts)
  have h2: "chunkDurationOf default_options = Fin 300" by (rule sample_facts)
  have h4: "js_ceil (js_div (Fin 650) (Fin 300)) = Fin (real 3)" using sample_count(1) by simp
  have h5: "\<not> needSrtOf default_options" by (simp add: sample_facts)
  have h6: "\<forall>i<3. split_ok env_plain i" by (simp add: sample_facts)
  have h7: "\<forall>i<3. whisper_text env_plain i (fst (transcribeChunk env_plain ''.mp3''
                (languageOf default_options) (Fin 300) False i)) =
              Some (ReplyString (''part '' @ nat_to_string i))"
    by (simp add: env_plain_def)
  have h8: "(1 :: nat) < 3" by simp
  have h9: "\<forall>systemPrompt userPrompt. chat env_plain 1 systemPrompt userPrompt = None"
    by (simp add: env_plain_def)
  have others: "formatWithAI (chat env_plain 0) raw language = ''Part 0.''"
    "formatWithAI (chat env_plain 2) raw language = ''Part 2.''" for raw language
    by (simp_all add: formatWithAI_def env_plain_def nat_to_string_digits Let_def)
  from formatting_failure_swallowed [OF h1 h2 h4 h5 h6 h7 h8 h9] show ?thesis
    by (auto simp add: upt_3 replyText_def nat_to_string_digits others)
qed

section \<open>Runs without chunks\<close>

lemma assemble_empty:
  "assemble needSrt [] = \<lparr>tr_text = [], tr_srt = (if needSrt then Some [] else None)\<rparr>"
  by (simp add: assemble_def Let_def entriesToSrtString_def)

lemma transcribeFromPath_no_chunks:
  assumes "probe_result e = Some d"
    and "\<not> js_lt 0 (js_ceil (js_div d (chunkDurationOf options)))"
  shows "transcribeFromPath e ext options =
     Some \<lparr>split_cmds = [], requests = [],
           outcome = Inr \<lparr>tr_text = [], tr_srt = (if needSrtOf options then Some [] else None)\<rparr>\<rparr>"
  using transcribeFromPath_chunks [OF assms(1), of 0 options ext] assms(2)
  by (simp add: assemble_empty)

text \<open>
  Claim C8, as the code has it. The pipeline validates neither duration and has no
  configuration error. When the total duration is at most 0 and the chunk duration
  positive, or the chunk duration negative and the total duration at least 0, the chunk
  count is not positive: the run issues no split command and no transcription request,
  and returns the empty transcript (with the empty subtitle string in a subtitle run).
\<close>

theorem nonpositive_quotient_no_work:
  assumes "probe_result e = Some (Fin t)" and "chunkDurationOf options = Fin c"
    and "(t \<le> 0 \<and> 0 < c) \<or> (0 \<le> t \<and> c < 0)"
  shows "transcribeFromPath e ext options =
     Some \<lparr>split_cmds = [], requests = [],
           outcome = Inr \<lparr>tr_text = [], tr_srt = (if needSrtOf options then Some [] else None)\<rparr>\<rparr>"
proof -
  have "t / c \<le> 0" using assms(3) by (auto simp: divide_le_0_iff)
  then have "\<not> js_lt 0 (js_ceil (to_double (t / c)))" by (rule to_double_no_chunks)
  moreover have "c \<noteq> 0" using assms(3) by auto
  ultimately have "\<not> js_lt 0 (js_ceil (js_div (Fin t) (chunkDurationOf options)))"
    by (simp add: assms(2))
  with assms(1) show ?thesis by (rule transcribeFromPath_no_chunks)
qed

theorem nonpositive_quotient_no_work_witness:
  "transcribeFromPath (env_plain\<lparr>probe_result := Some (Fin 0)\<rparr>) ''.mp3''
     \<lparr>opt_language = None, opt_chunkDuration = None, opt_outputFormat = Some SrtFormat\<rparr> =
   Some \<lparr>split_cmds = [], requests = [], outcome = Inr \<lparr>tr_text = [], tr_srt = Some []\<rparr>\<rparr>"
proof -
  let ?e = "env_plain\<lparr>probe_result := Some (Fin 0)\<rparr>"
  let ?o = "\<lparr>opt_language = None, opt_chunkDuration = None, opt_outputFormat = Some SrtFormat\<rparr>"
  have h1: "probe_result ?e = Some (Fin 0)" by simp
  have h2: "chunkDurationOf ?o = Fin 300" by (simp add: chunkDurationOf_def)
  have h3: "((0 :: real) \<le> 0 \<and> (0 :: real) < 300) \<or> ((0 :: real) \<le> 0 \<and> (300 :: real) < 0)" by simp
  from nonpositive_quotient_no_work [OF h1 h2 h3, of "''.mp3''"] show ?thesis
    by (simp add: needSrtOf_def)
qed

text \<open>
  The claim as written fails: with a chunk duration of \<open>-300\<close> seconds the run of the
  650-second file does not fail, it returns the empty transcript.
\<close>

theorem no_config_error_counterexample:
  "transcribeFromPath env_plain ''.mp3''
     \<lparr>opt_language = None, opt_chunkDuration = Some (Fin (- 300)), opt_outputFormat = None\<rparr> =
   Some \<lparr>split_cmds = [], requests = [], outcome = Inr \<lparr>tr_text = [], tr_srt = None\<rparr>\<rparr>"
proof -
  let ?o = "\<lparr>opt_language = None, opt_chunkDuration = Some (Fin (- 300)), opt_outputFormat = None\<rparr>"
  have "\<not> js_lt 0 (js_ceil (to_double (650 / (- 300))))"
    by (rule to_double_no_chunks) simp
  then have "\<not> js_lt 0 (js_ceil (js_div (Fin 650) (chunkDurationOf ?o)))"
    by (simp add: chunkDurationOf_def)
  with sample_facts(1) have "transcribeFromPath env_plain ''.mp3'' ?o =
     Some \<lparr>split_cmds = [], requests = [],
           outcome = Inr \<lparr>tr_text = [], tr_srt = (if needSrtOf ?o then Some [] else None)\<rparr>\<rparr>"
    by (rule transcribeFromPath_no_chunks)
  then show ?thesis by (simp add: needSrtOf_def)
qed

text \<open>
  Claim C10, as the code has it. When the probe gives a duration that is \<^verbatim>\<open>NaN\<close> or 0,
  or one that is negative while the chunk duration, if it is a finite number, is positive
  (as its default of 300 is), the pipeline returns: it runs no split command, issues no
  transcription request, and its result has the empty text, and the empty subtitle string
  when subtitles are requested.
\<close>

theorem unparsable_duration_empty_result:
  assumes "probe_result e = Some d"
    and "d = NaN \<or> d = Fin 0 \<or>
         ((d = NInf \<or> (\<exists>t. d = Fin t \<and> t < 0)) \<and>
          (\<forall>c. chunkDurationOf options = Fin c \<longrightarrow> 0 < c))"
  shows "transcribeFromPath e ext options =
     Some \<lparr>split_cmds = [], requests = [],
           outcome = Inr \<lparr>tr_text = [], tr_srt = (if needSrtOf options then Some [] else None)\<rparr>\<rparr>"
proof -
  have "\<not> js_lt 0 (js_ceil (js_div d (chunkDurationOf options)))"
  proof -
    consider "d = NaN" | "d = Fin 0"
      | "d = NInf" "\<forall>c. chunkDurationOf options = Fin c \<longrightarrow> 0 < c"
      | t where "d = Fin t" "t < 0" "\<forall>c. chunkDurationOf options = Fin c \<longrightarrow> 0 < c"
      using assms(2) by blast
    then show ?thesis
    proof cases
      case 1
      then show ?thesis by simp
    next
      case 2
      have "\<not> js_lt 0 (js_ceil (to_double 0))" by (rule to_double_no_chunks) simp
      with 2 show ?thesis by (cases "chunkDurationOf options") simp_all
    next
      case 3
      then show ?thesis by (cases "chunkDurationOf options") simp_all
    next
      case 4
      show ?thesis
      proof (cases "chunkDurationOf options")
        case (Fin c)
        with 4(3) have c: "0 < c" by simp
        with 4(2) have "t / c \<le> 0" by (simp add: divide_le_0_iff)
        then have "\<not> js_lt 0 (js_ceil (to_double (t / c)))" by (rule to_double_no_chunks)
        with 4(1) Fin c show ?thesis by simp
      qed (simp_all add: 4(1))
    qed
  qed
  with assms(1) show ?thesis by (rule transcribeFromPath_no_chunks)
qed

theorem unparsable_duration_empty_result_witness:
  "transcribeFromPath (env_plain\<lparr>probe_result := Some NaN\<rparr>) ''.mp3'' default_options =
     Some \<lparr>split_cmds = [], requests = [], outcome = Inr \<lparr>tr_text = [], tr_srt = None\<rparr>\<rparr> \<and>
   transcribeFromPath (env_plain\<lparr>probe_result := Some (Fin (- 1))\<rparr>) ''.mp3''
       \<lparr>opt_language = None, opt_chunkDuration = None, opt_outputFormat = Some SrtFormat\<rparr> =
     Some \<lparr>split_cmds = [], requests = [], outcome = Inr \<lparr>tr_text = [], tr_srt = Some []\<rparr>\<rparr>"
proof -
  let ?e = "env_plain\<lparr>probe_result := Some NaN\<rparr>"
  let ?e' = "env_plain\<lparr>probe_result := Some (Fin (- 1))\<rparr>"
  let ?o' = "\<lparr>opt_language = None, opt_chunkDuration = None, opt_outputFormat = Some SrtFormat\<rparr>"
  have h1: "probe_result ?e = Some NaN" by simp
  have h2: "NaN = NaN \<or> NaN = Fin 0 \<or>
         ((NaN = NInf \<or> (\<exists>t. NaN = Fin t \<and> t < 0)) \<and>
          (\<forall>c. chunkDurationOf default_options = Fin c \<longrightarrow> 0 < c))" by simp
  have h1': "probe_result ?e' = Some (Fin (- 1))" by simp
  have h2': "Fin (- 1) = NaN \<or> Fin (- 1) = Fin 0 \<or>
         ((Fin (- 1) = NInf \<or> (\<exists>t. Fin (- 1) = Fin t \<and> t < 0)) \<and>
          (\<forall>c. chunkDurationOf ?o' = Fin c \<longrightarrow> 0 < c))"
    by (simp add: chunkDurationOf_def)
  from unparsable_duration_empty_result [OF h1 h2, of "''.mp3''"]
    unparsable_duration_empty_result [OF h1' h2', of "''.mp3''"]
  show ?thesis
    by (simp add: needSrtOf_def default_options_def)
qed

text \<open>
  The claim as written fails for a negative duration with a negative chunk duration:
  probed at \<open>-1\<close> second with chunks of \<open>-300\<close> seconds, the pipeline plans one chunk, runs
  one split command and issues one transcription request.
\<close>

theorem negative_durations_counterexample:
  "map_option (length \<circ> split_cmds)
     (transcribeFromPath (env_plain\<lparr>probe_result := Some (Fin (- 1))\<rparr>) ''.mp3''
        \<lparr>opt_language = None, opt_chunkDuration = Some (Fin (- 300)), opt_outputFormat = None\<rparr>) =
     Some 1 \<and>
   map_option (length \<circ> requests)
     (transcribeFromPath (env_plain\<lparr>probe_result := Some (Fin (- 1))\<rparr>) ''.mp3''
        \<lparr>opt_language = None, opt_chunkDuration = Some (Fin (- 300)), opt_outputFormat = None\<rparr>) =
     Some 1"
proof -
  let ?e = "env_plain\<lparr>probe_result := Some (Fin (- 1))\<rparr>"
  let ?o = "\<lparr>opt_language = None, opt_chunkDuration = Some (Fin (- 300)), opt_outputFormat = None\<rparr>"
  have p: "probe_result ?e = Some (Fin (- 1))" by simp
  have c: "chunkDurationOf ?o = Fin (- 300)" by (simp add: chunkDurationOf_def)
  have n: "js_ceil (js_div (Fin (- 1)) (Fin (- 300))) = Fin (real 1)"
    using sample_count(2) by simp
  have ok: "\<forall>i<1. split_ok ?e i" by (simp add: env_plain_def)
  from transcribeFromPath_plan [OF p c n ok, of "''.mp3''"] show ?thesis by simp
qed

section \<open>Language routing\<close>

text \<open>
  Claim C9, as the code has it. With the language \<^verbatim>\<open>auto\<close> a request carries neither a
  language nor a prompt. With any other language the request carries that language as
  given; it carries a hint prompt only when the language is \<^verbatim>\<open>zh\<close> or \<^verbatim>\<open>chinese\<close>, and
  then the same hint for both. This holds for every request of every run. The two Chinese
  codes are also given the same formatting prompts.
\<close>

theorem language_routing:
  "rq_language (fst (transcribeChunk e ext language cd needSrt i)) =
     (if language = ''auto'' then None else Some language) \<and>
   rq_prompt (fst (transcribeChunk e ext language cd needSrt i)) =
     (if language = ''zh'' \<or> language = ''chinese'' then Some languagePrompt_zh else None) \<and>
   (\<forall>r. transcribeFromPath e ext options = Some r \<longrightarrow>
      map rq_language (requests r) =
        replicate (length (requests r))
          (if languageOf options = ''auto'' then None else Some (languageOf options)) \<and>
      map rq_prompt (requests r) =
        replicate (length (requests r))
          (if languageOf options = ''zh'' \<or> languageOf options = ''chinese''
           then Some languagePrompt_zh else None)) \<and>
   (isChinese l \<and> isChinese l' \<longrightarrow>
      getLanguagePrompt l = getLanguagePrompt l' \<and>
      formatWithAI client raw l = formatWithAI client raw l')"
proof -
  have lang: "rq_language (fst (transcribeChunk e ext l cd s i)) =
     (if l = ''auto'' then None else Some l)" for l cd s i
    by (simp add: transcribeChunk_request)
  have prompt: "rq_prompt (fst (transcribeChunk e ext l cd s i)) =
     (if l = ''zh'' \<or> l = ''chinese'' then Some languagePrompt_zh else None)" for l cd s i
    by (simp add: transcribeChunk_request getLanguagePrompt_def isChinese_def)
  have run: "map rq_language (requests r) =
        replicate (length (requests r))
          (if languageOf options = ''auto'' then None else Some (languageOf options)) \<and>
      map rq_prompt (requests r) =
        replicate (length (requests r))
          (if languageOf options = ''zh'' \<or> languageOf options = ''chinese''
           then Some languagePrompt_zh else None)"
    if "transcribeFromPath e ext options = Some r" for r
  proof (cases "probe_result e")
    case None
    with that have "requests r = []" by (auto simp: transcribeFromPath_def Let_def)
    then show ?thesis by simp
  next
    case (Some d)
    show ?thesis
    proof (cases "splitLoop e ext (js_ceil (js_div d (chunkDurationOf options))) (chunkDurationOf options) 0 []")
      case None
      with that Some show ?thesis by (simp add: transcribeFromPath_def Let_def)
    next
      case inner: (Some res)
      obtain cmds ok where res: "res = (cmds, ok)" by (cases res)
      show ?thesis
      proof (cases ok)
        case False
        with that Some inner res have "requests r = []"
          by (auto simp: transcribeFromPath_def Let_def)
        then show ?thesis by simp
      next
        case True
        with that Some inner res have "requests r =
          map (\<lambda>i. fst (transcribeChunk e ext (languageOf options) (chunkDurationOf options)
                (needSrtOf options) i)) [0..<length cmds]"
          by (auto simp: transcribeFromPath_def Let_def comp_def)
        then show ?thesis
          by (simp add: comp_def lang prompt map_replicate_const)
      qed
    qed
  qed
  have same: "getLanguagePrompt l = getLanguagePrompt l' \<and>
      formatWithAI client raw l = formatWithAI client raw l'" if "isChinese l" "isChinese l'"
    using that by (simp add: getLanguagePrompt_def formatWithAI_def)
  from lang prompt run same show ?thesis by blast
qed

theorem language_routing_witness:
  "map_option (map rq_language \<circ> requests)
     (transcribeFromPath env_plain ''.mp3''
        \<lparr>opt_language = Some ''chinese'', opt_chunkDuration = None, opt_outputFormat = None\<rparr>) =
     Some [Some ''chinese'', Some ''chinese'', Some ''chinese''] \<and>
   map_option (map rq_prompt \<circ> requests)
     (transcribeFromPath env_plain ''.mp3''
        \<lparr>opt_language = Some ''chinese'', opt_chunkDuration = None, opt_outputFormat = None\<rparr>) =
     Some [Some languagePrompt_zh, Some languagePrompt_zh, Some languagePrompt_zh]"
proof -
  let ?o = "\<lparr>opt_language = Some ''chinese'', opt_chunkDuration = None, opt_outputFormat = None\<rparr>"
  have o: "chunkDurationOf ?o = Fin 300" "languageOf ?o = ''chinese''"
    by (simp_all add: chunkDurationOf_def languageOf_def)
  have n: "js_ceil (js_div (Fin 650) (Fin 300)) = Fin (real 3)" using sample_count(1) by simp
  have "\<forall>i<3. split_ok env_plain i" by (simp add: sample_facts)
  from transcribeFromPath_plan [OF sample_facts(1) o(1) n this, of "''.mp3''"]
  obtain r where r: "transcribeFromPath env_plain ''.mp3'' ?o = Some r" "length (requests r) = 3"
    by simp
  from language_routing [of env_plain "''.mp3''" _ _ _ _ ?o] r(1)
  have "map rq_language (requests r) =
        replicate (length (requests r))
          (if languageOf ?o = ''auto'' then None else Some (languageOf ?o)) \<and>
      map rq_prompt (requests r) =
        replicate (length (requests r))
          (if languageOf ?o = ''zh'' \<or> languageOf ?o = ''chinese''
           then Some languagePrompt_zh else None)"
    by blast
  then show ?thesis
    by (simp add: r o numeral_3_eq_3)
qed

text \<open>
  The claim as written fails for an explicit language that is not Chinese: the request
  for English carries the language and no hint.
\<close>

theorem language_routing_counterexample:
  "rq_language (fst (transcribeChunk env_plain ''.mp3'' ''en'' (Fin 300) False 0)) = Some ''en'' \<and>
   rq_prompt (fst (transcribeChunk env_plain ''.mp3'' ''en'' (Fin 300) False 0)) = None"
  by (simp add: transcribeChunk_request getLanguagePrompt_def isChinese_def)

end
